theory Spec2Isabelle
  imports Complex_Main "HOL-Library.List_Lexorder" "HOL-Library.Char_ord"
begin

section \<open>Values and errors\<close>

text \<open>
  A float64 cell of the dataframe. Comparison of two finite doubles is the comparison of
  the numbers they denote, so a finite value is a real; a missing CSV field is read as NaN,
  and every ordering comparison with NaN is False. The decimal literals of the source
  (\<^verbatim>\<open>24.6\<close>, \<^verbatim>\<open>-169.5\<close>, ...) are read as the decimals they are written as.
\<close>

datatype pyfloat = Num real | NaN

text \<open>
  A cell of a column whose dtype \<^verbatim>\<open>read_csv\<close> infers from the data: text (an object column),
  a number (when every value of the column reads as a number), or a missing value.
\<close>

datatype cell = Str string | Number real | Missing

datatype py_error =
    KeyError string
  | TypeError
  | ValueError
  | EmptyDataError
  | ParserError

text \<open>Sequencing of a computation that may raise: the first exception ends it.\<close>

definition bindE :: "py_error + 'a \<Rightarrow> ('a \<Rightarrow> py_error + 'b) \<Rightarrow> py_error + 'b" where
  "bindE m f = (case m of Inl e \<Rightarrow> Inl e | Inr x \<Rightarrow> f x)"

fun mapE :: "('a \<Rightarrow> py_error + 'b) \<Rightarrow> 'a list \<Rightarrow> py_error + 'b list" where
  "mapE f [] = Inr []"
| "mapE f (x # xs) = bindE (f x) (\<lambda>y. bindE (mapE f xs) (\<lambda>ys. Inr (y # ys)))"

text \<open>The chained comparison \<^verbatim>\<open>lo <= x <= hi\<close> against two float constants.\<close>

fun between :: "real \<Rightarrow> pyfloat \<Rightarrow> real \<Rightarrow> bool" where
  "between lo (Num x) hi = (lo \<le> x \<and> x \<le> hi)"
| "between lo NaN hi = False"

section \<open>DataDownloader.py: the region table\<close>

record box =
  lat_min :: real
  lat_max :: real
  lon_min :: real
  lon_max :: real

definition Conterminous_US :: box where
  "Conterminous_US = \<lparr>lat_min = 24.6, lat_max = 50.0, lon_min = -125.0, lon_max = -65.0\<rparr>"

definition Alaska_west_dateline :: box where
  "Alaska_west_dateline = \<lparr>lat_min = 50.0, lat_max = 72.0, lon_min = -180.0, lon_max = -169.5\<rparr>"

definition Alaska_main :: box where
  "Alaska_main = \<lparr>lat_min = 54.0, lat_max = 72.0, lon_min = -169.5, lon_max = -129.0\<rparr>"

definition Alaska_east_dateline :: box where
  "Alaska_east_dateline = \<lparr>lat_min = 50.0, lat_max = 72.0, lon_min = 170.0, lon_max = 180.0\<rparr>"

definition Hawaii :: box where
  "Hawaii = \<lparr>lat_min = 18.5, lat_max = 22.5, lon_min = -161.0, lon_max = -154.5\<rparr>"

definition Puerto_Rico :: box where
  "Puerto_Rico = \<lparr>lat_min = 17.5, lat_max = 18.8, lon_min = -67.5, lon_max = -64.0\<rparr>"

text \<open>The dict \<^verbatim>\<open>REGIONS\<close>, in insertion order (the order \<^verbatim>\<open>REGIONS.items()\<close> iterates in).\<close>

definition REGIONS :: "(string \<times> box) list" where
  "REGIONS =
    [(''Conterminous_US'', Conterminous_US),
     (''Alaska_west_dateline'', Alaska_west_dateline),
     (''Alaska_main'', Alaska_main),
     (''Alaska_east_dateline'', Alaska_east_dateline),
     (''Hawaii'', Hawaii),
     (''Puerto_Rico'', Puerto_Rico)]"

text \<open>\<^verbatim>\<open>REGIONS[name]\<close>: a missing key raises KeyError.\<close>

definition region_bounds :: "string \<Rightarrow> py_error + box" where
  "region_bounds name =
     (case map_of REGIONS name of None \<Rightarrow> Inl (KeyError name) | Some b \<Rightarrow> Inr b)"

section \<open>DataDownloader.py: rows and their classification\<close>

text \<open>
  A row of the dataframe read from the catalog's CSV: the columns the script names, typed as
  \<^verbatim>\<open>read_csv\<close> types them for catalog data (\<open>place\<close> text, the coordinates, depth and
  magnitude float64), and the remaining columns passed through as text. The \<open>time\<close> column
  is never parsed as a date by this script: it holds the text of the CSV, which
  \<^verbatim>\<open>read_csv\<close> turns into numbers only if all of it reads as numbers.
\<close>

record row =
  time :: cell
  latitude :: pyfloat
  longitude :: pyfloat
  depth :: pyfloat
  mag :: pyfloat
  place :: string
  other :: "string list"

record classified = row +
  region :: string

text \<open>
  One test of the \<^verbatim>\<open>if/elif\<close> chain of \<^verbatim>\<open>classify_region\<close>:
  \<^verbatim>\<open>REGIONS[n]['lat_min'] <= lat <= REGIONS[n]['lat_max'] and
  REGIONS[n]['lon_min'] <= lon <= REGIONS[n]['lon_max']\<close>.
\<close>

definition in_region :: "string \<Rightarrow> pyfloat \<Rightarrow> pyfloat \<Rightarrow> py_error + bool" where
  "in_region name lat lon =
     bindE (region_bounds name)
       (\<lambda>b. Inr (between (lat_min b) lat (lat_max b) \<and> between (lon_min b) lon (lon_max b)))"

definition classify_region :: "row \<Rightarrow> py_error + string" where
  "classify_region r =
    (let lat = latitude r; lon = longitude r in
     bindE (in_region ''Alaska_west_dateline'' lat lon) (\<lambda>hit.
       if hit then Inr ''Alaska'' else
     bindE (in_region ''Alaska_main'' lat lon) (\<lambda>hit.
       if hit then Inr ''Alaska'' else
     bindE (in_region ''Alaska_east_dateline'' lat lon) (\<lambda>hit.
       if hit then Inr ''Alaska'' else
     bindE (in_region ''Hawaii'' lat lon) (\<lambda>hit.
       if hit then Inr ''Hawaii'' else
     bindE (in_region ''Puerto_Rico'' lat lon) (\<lambda>hit.
       if hit then Inr ''Puerto Rico'' else
     Inr ''Conterminous US''))))))"

text \<open>\<^verbatim>\<open>df['region'] = df.apply(classify_region, axis=1)\<close>: one call per row, in order.\<close>

definition with_region :: "row \<Rightarrow> string \<Rightarrow> classified" where
  "with_region r lab = row.extend r (classified.fields lab)"

definition assign_region :: "row list \<Rightarrow> py_error + classified list" where
  "assign_region df = mapE (\<lambda>r. bindE (classify_region r) (\<lambda>lab. Inr (with_region r lab))) df"

subsection \<open>The classification as the specification words it\<close>

definition in_box :: "box \<Rightarrow> pyfloat \<Rightarrow> pyfloat \<Rightarrow> bool" where
  "in_box b lat lon =
     (case (lat, lon) of
        (Num la, Num lo) \<Rightarrow> la \<in> {lat_min b .. lat_max b} \<and> lo \<in> {lon_min b .. lon_max b}
      | _ \<Rightarrow> False)"

definition region_label :: "pyfloat \<Rightarrow> pyfloat \<Rightarrow> string" where
  "region_label lat lon =
     (if in_box Alaska_west_dateline lat lon \<or> in_box Alaska_main lat lon
         \<or> in_box Alaska_east_dateline lat lon then ''Alaska''
      else if in_box Hawaii lat lon then ''Hawaii''
      else if in_box Puerto_Rico lat lon then ''Puerto Rico''
      else ''Conterminous US'')"

text \<open>The plotter's display order of the labels (checkpoint.py).\<close>

definition region_order :: "string list" where
  "region_order = [''Alaska'', ''Conterminous US'', ''Hawaii'', ''Puerto Rico'']"

section \<open>DataDownloader.py: fetching\<close>

text \<open>
  The query parameters of one GET request, and what \<^verbatim>\<open>requests.get\<close> does with them:
  it returns a response (status code and body text) or raises an exception (an instance of
  \<^verbatim>\<open>Exception\<close>: connection error, timeout, ...), carried here by its message. The network
  is a parameter of the model; every (window, box) pair of the run is a different query.
\<close>

record query =
  format :: string
  starttime :: string
  endtime :: string
  minmagnitude :: real
  minlatitude :: real
  maxlatitude :: real
  minlongitude :: real
  maxlongitude :: real
  orderby :: string

datatype http_result = Response int string | Raises string

type_synonym network = "query \<Rightarrow> http_result"

definition download_earthquakes ::
  "network \<Rightarrow> string \<Rightarrow> string \<Rightarrow> string \<Rightarrow> real \<Rightarrow> real \<Rightarrow> real \<Rightarrow> real \<Rightarrow> real \<Rightarrow> string option" where
  "download_earthquakes net start_date end_date region_name la_min la_max lo_min lo_max min_mag =
    (let params = \<lparr>format = ''csv'', starttime = start_date, endtime = end_date,
                    minmagnitude = min_mag, minlatitude = la_min, maxlatitude = la_max,
                    minlongitude = lo_min, maxlongitude = lo_max, orderby = ''time''\<rparr>
     in case net params of
          Response status_code text \<Rightarrow> if status_code = 200 then Some text else None
        | Raises e \<Rightarrow> None)"

text \<open>
  The progress lines the script prints while fetching, and its pauses between requests, have no
  effect on the data and are left out.
\<close>

definition date_ranges :: "(string \<times> string) list" where
  "date_ranges =
    [(''1925-01-01'', ''1934-12-31''), (''1935-01-01'', ''1944-12-31''),
     (''1945-01-01'', ''1954-12-31''), (''1955-01-01'', ''1964-12-31''),
     (''1965-01-01'', ''1974-12-31''), (''1975-01-01'', ''1984-12-31''),
     (''1985-01-01'', ''1994-12-31''), (''1995-01-01'', ''1999-12-31''),
     (''2000-01-01'', ''2004-12-31''), (''2005-01-01'', ''2009-12-31''),
     (''2010-01-01'', ''2014-12-31''), (''2015-01-01'', ''2019-12-31''),
     (''2020-01-01'', ''2024-12-31''), (''2025-01-01'', ''2025-11-02'')]"

text \<open>
  The inner loop over \<^verbatim>\<open>REGIONS.items()\<close>: \<^verbatim>\<open>if csv_text: period_data.append(csv_text)\<close>.
  \<^verbatim>\<open>None\<close> and the empty string are both falsy.
\<close>

fun regions_loop :: "network \<Rightarrow> string \<Rightarrow> string \<Rightarrow> (string \<times> box) list \<Rightarrow> string list \<Rightarrow> string list" where
  "regions_loop net start_date end_date [] period_data = period_data"
| "regions_loop net start_date end_date ((region_name, bounds) # rest) period_data =
    (let csv_text = download_earthquakes net start_date end_date region_name
                      (lat_min bounds) (lat_max bounds) (lon_min bounds) (lon_max bounds) 4.5
     in regions_loop net start_date end_date rest
          (case csv_text of
             None \<Rightarrow> period_data
           | Some text \<Rightarrow> if text \<noteq> [] then period_data @ [text] else period_data))"

text \<open>The outer loop over \<^verbatim>\<open>date_ranges\<close>: \<^verbatim>\<open>all_data.extend(period_data)\<close>.\<close>

fun periods_loop :: "network \<Rightarrow> (string \<times> string) list \<Rightarrow> string list \<Rightarrow> string list" where
  "periods_loop net [] all_data = all_data"
| "periods_loop net ((start_date, end_date) # rest) all_data =
    periods_loop net rest (all_data @ regions_loop net start_date end_date REGIONS [])"

definition fetch_all :: "network \<Rightarrow> string list" where
  "fetch_all net = periods_loop net date_ranges []"

section \<open>DataDownloader.py: combining the texts\<close>

abbreviation nl :: char where
  "nl \<equiv> CHR 0x0A"

text \<open>\<^verbatim>\<open>s.split('\n')\<close> and \<^verbatim>\<open>'\n'.join(ls)\<close>.\<close>

fun split_nl :: "string \<Rightarrow> string list" where
  "split_nl [] = ['''']"
| "split_nl (c # cs) =
    (if c = nl then [] # split_nl cs
     else (case split_nl cs of [] \<Rightarrow> [c # []] | l # ls \<Rightarrow> (c # l) # ls))"

fun join_nl :: "string list \<Rightarrow> string" where
  "join_nl [] = []"
| "join_nl [l] = l"
| "join_nl (l # ls) = l @ nl # join_nl ls"

text \<open>
  The loop over \<^verbatim>\<open>all_data[1:]\<close>, started with \<^verbatim>\<open>combined_text = all_data[0]\<close>;
  \<^verbatim>\<open>lines[1:]\<close> is \<open>tl lines\<close>.
\<close>

fun combine_loop :: "string \<Rightarrow> string list \<Rightarrow> string" where
  "combine_loop combined_text [] = combined_text"
| "combine_loop combined_text (csv_text # rest) =
    (let lines = split_nl csv_text
     in combine_loop
          (if length lines > 1 then combined_text @ [nl] @ join_nl (tl lines) else combined_text)
          rest)"

text \<open>
  The script's own count of the events of one response:
  \<^verbatim>\<open>line_count = len(response.text.split('\n')) - 2\<close> (header and the empty piece after the
  final newline).
\<close>

definition line_count :: "string \<Rightarrow> int" where
  "line_count text = int (length (split_nl text)) - 2"

section \<open>DataDownloader.py: parsing, deduplication, sorting\<close>

text \<open>
  \<^verbatim>\<open>pd.read_csv\<close> on catalog text: records are the lines of the text, lines holding only
  spaces or tabs are skipped (\<^verbatim>\<open>skip_blank_lines\<close>), the first remaining line is the header
  and every later one is a data row. The field parser is a parameter: given the header it
  turns a line into a typed row, or rejects it. Quoted line breaks and carriage returns, which
  the catalog does not emit, are not modelled.
\<close>

definition blank :: "string \<Rightarrow> bool" where
  "blank l = list_all (\<lambda>c. c = CHR '' '' \<or> c = CHR 0x09) l"

definition csv_lines :: "string \<Rightarrow> string list" where
  "csv_lines text = filter (\<lambda>l. \<not> blank l) (split_nl text)"

text \<open>
  A response as the catalog sends it: a header line and data lines, none of them blank, each
  ended by a newline. On such a text \<open>line_count\<close> is the number of data lines.
\<close>

definition catalog_text :: "string \<Rightarrow> bool" where
  "catalog_text text =
     (let lines = split_nl text
      in last lines = [] \<and> butlast lines \<noteq> [] \<and> list_all (\<lambda>l. \<not> blank l) (butlast lines))"

type_synonym parser = "string \<Rightarrow> string \<Rightarrow> row option"

definition read_csv :: "parser \<Rightarrow> string \<Rightarrow> py_error + row list" where
  "read_csv p text =
     (case csv_lines text of
        [] \<Rightarrow> Inl EmptyDataError
      | header # ls \<Rightarrow>
          (case those (map (p header) ls) of
             None \<Rightarrow> Inl ParserError
           | Some df \<Rightarrow> Inr df))"

text \<open>
  \<^verbatim>\<open>drop_duplicates(subset=[...])\<close> with the default \<^verbatim>\<open>keep='first'\<close>: a row is dropped when
  an earlier row has the same values in the subset columns. Equality is exact; two missing
  values count as equal.
\<close>

fun drop_seen :: "('r \<Rightarrow> 'k) \<Rightarrow> 'k list \<Rightarrow> 'r list \<Rightarrow> 'r list" where
  "drop_seen key seen [] = []"
| "drop_seen key seen (r # rs) =
    (if key r \<in> set seen then drop_seen key seen rs
     else r # drop_seen key (key r # seen) rs)"

definition subset_key :: "row \<Rightarrow> cell \<times> pyfloat \<times> pyfloat \<times> pyfloat" where
  "subset_key r = (time r, latitude r, longitude r, mag r)"

definition drop_duplicates :: "row list \<Rightarrow> row list" where
  "drop_duplicates df = drop_seen subset_key [] df"

text \<open>
  \<^verbatim>\<open>df.sort_values('time')\<close>, ascending with missing values last: the rows whose time is
  present are sorted by it and the rows whose time is missing follow in their old order. Text
  is compared as Python compares strings (character by character), numbers by value; sorting
  a column that holds both raises TypeError. The order of rows with equal times is not fixed
  by the library.
\<close>

fun is_text :: "cell \<Rightarrow> bool" where
  "is_text (Str s) = True"
| "is_text (Number x) = False"
| "is_text Missing = False"

fun is_number :: "cell \<Rightarrow> bool" where
  "is_number (Str s) = False"
| "is_number (Number x) = True"
| "is_number Missing = False"

fun text_of :: "cell \<Rightarrow> string" where
  "text_of (Str s) = s"
| "text_of (Number x) = []"
| "text_of Missing = []"

fun number_of :: "cell \<Rightarrow> real" where
  "number_of (Str s) = 0"
| "number_of (Number x) = x"
| "number_of Missing = 0"

definition sort_values_time :: "classified list \<Rightarrow> py_error + classified list" where
  "sort_values_time df =
     (let present = filter (\<lambda>r. time r \<noteq> Missing) df;
          missing = filter (\<lambda>r. time r = Missing) df
      in if list_all (\<lambda>r. is_text (time r)) present
         then Inr (sort_key (\<lambda>r. text_of (time r)) present @ missing)
         else if list_all (\<lambda>r. is_number (time r)) present
         then Inr (sort_key (\<lambda>r. number_of (time r)) present @ missing)
         else Inl TypeError)"

text \<open>
  What ascending order of the time column means for two cells, the first written before the
  second: a missing value comes after everything, text is ordered as text, numbers as numbers.
\<close>

fun time_le :: "cell \<Rightarrow> cell \<Rightarrow> bool" where
  "time_le a Missing = True"
| "time_le (Str s) (Str t) = (s \<le> t)"
| "time_le (Number x) (Number y) = (x \<le> y)"
| "time_le a b = False"

section \<open>DataDownloader.py: the script\<close>

datatype content = Text string | Table "classified list"

record run =
  files :: "string \<rightharpoonup> content"
  console :: "string list"
  uncaught :: "py_error option"

text \<open>The processing of the combined text up to the frame that is written out.\<close>

definition process :: "parser \<Rightarrow> string \<Rightarrow> py_error + classified list" where
  "process p combined_text =
     bindE (read_csv p combined_text) (\<lambda>df.
     bindE (assign_region (drop_duplicates df)) (\<lambda>df.
     sort_values_time df))"

text \<open>
  The whole script, on a file system \<open>fs\<close>. Of the console output only the closing lines are
  kept (without their leading mark). An exception after the temporary file was written leaves
  that file behind.
\<close>

definition main :: "network \<Rightarrow> parser \<Rightarrow> (string \<rightharpoonup> content) \<Rightarrow> run" where
  "main net p fs =
    (case fetch_all net of
       [] \<Rightarrow> \<lparr>files = fs, console = [''No data downloaded successfully''], uncaught = None\<rparr>
     | first # rest \<Rightarrow>
        (let combined_text = combine_loop first rest;
             fs1 = fs(''temp_combined.csv'' \<mapsto> Text combined_text)
         in case process p combined_text of
              Inl e \<Rightarrow> \<lparr>files = fs1, console = [], uncaught = Some e\<rparr>
            | Inr df \<Rightarrow>
                \<lparr>files = (fs1(''us_earthquakes_m4.5_complete.csv'' \<mapsto> Table df))
                           (''temp_combined.csv'' := None),
                 console = [''SUCCESS!'', ''Saved as: us_earthquakes_m4.5_complete.csv''],
                 uncaught = None\<rparr>))"

subsection \<open>Reading the time column chronologically\<close>

text \<open>
  The catalog writes the time of an event as UTC text of one fixed shape,
  \<^verbatim>\<open>YYYY-MM-DDTHH:MM:SS.sssZ\<close>. For two texts of that shape the earlier instant is the one
  whose digits (year, month, day, hour, minute, second, millisecond, in this order) form the
  smaller number.
\<close>

definition digit :: "char \<Rightarrow> bool" where
  "digit c \<longleftrightarrow> CHR ''0'' \<le> c \<and> c \<le> CHR ''9''"

definition digit_value :: "char \<Rightarrow> nat" where
  "digit_value c = of_char c - 48"

fun decimal :: "string \<Rightarrow> nat" where
  "decimal [] = 0"
| "decimal (c # cs) = digit_value c * 10 ^ length cs + decimal cs"

definition time_shape :: string where
  "time_shape = ''dddd-dd-ddTdd:dd:dd.dddZ''"

definition fits :: "char \<Rightarrow> char \<Rightarrow> bool" where
  "fits f c = (if f = CHR ''d'' then digit c else c = f)"

definition catalog_time :: "string \<Rightarrow> bool" where
  "catalog_time t = list_all2 fits time_shape t"

definition instant :: "string \<Rightarrow> nat" where
  "instant t = decimal (filter digit t)"

text \<open>
  A time may also be written without the fraction of the second, \<^verbatim>\<open>YYYY-MM-DDTHH:MM:SSZ\<close>;
  it then names the start of that second. \<open>instant_of\<close> reads a text of either shape, on
  the scale of milliseconds.
\<close>

definition second_shape :: string where
  "second_shape = ''dddd-dd-ddTdd:dd:ddZ''"

definition whole_second_time :: "string \<Rightarrow> bool" where
  "whole_second_time t = list_all2 fits second_shape t"

definition instant_of :: "string \<Rightarrow> nat option" where
  "instant_of t =
     (if catalog_time t then Some (instant t)
      else if whole_second_time t then Some (instant t * 1000)
      else None)"

text \<open>Two characters at the same position of two such texts: both digits, or the same mark.\<close>

definition alike :: "char \<Rightarrow> char \<Rightarrow> bool" where
  "alike c d \<longleftrightarrow> (digit c \<and> digit d) \<or> c = d"

section \<open>checkpoint.py: the plotter's dataframe\<close>

text \<open>
  The plotter adds and replaces whole columns, so its dataframe is a store of named columns.
  A column has one dtype: float64, object (text, with missing entries), datetime, or
  categorical.
\<close>

datatype column =
    Float64 "pyfloat list"
  | Object "string option list"
  | Datetime "int option list"
  | Category "string option list"

type_synonym frame = "string \<rightharpoonup> column"

text \<open>\<^verbatim>\<open>df[name]\<close>.\<close>

definition getitem :: "frame \<Rightarrow> string \<Rightarrow> py_error + column" where
  "getitem df name = (case df name of None \<Rightarrow> Inl (KeyError name) | Some c \<Rightarrow> Inr c)"

text \<open>
  \<^verbatim>\<open>Series.clip(lower=lo)\<close>: values below the bound are replaced by it, missing values stay
  missing; comparing text with a number raises TypeError.
\<close>

fun clip_lower :: "real \<Rightarrow> pyfloat \<Rightarrow> pyfloat" where
  "clip_lower lo (Num x) = Num (if x < lo then lo else x)"
| "clip_lower lo NaN = NaN"

fun clip :: "real \<Rightarrow> column \<Rightarrow> py_error + column" where
  "clip lo (Float64 xs) = Inr (Float64 (map (clip_lower lo) xs))"
| "clip lo (Object xs) = (if list_all (\<lambda>x. x = None) xs then Inr (Object xs) else Inl TypeError)"
| "clip lo (Datetime xs) = Inl TypeError"
| "clip lo (Category xs) = Inl TypeError"

text \<open>\<^verbatim>\<open>pd.Categorical(values, categories=cats, ordered=True)\<close>: a value outside the categories
  becomes missing.\<close>

definition in_categories :: "string list \<Rightarrow> string option \<Rightarrow> string option" where
  "in_categories cats x =
     (case x of None \<Rightarrow> None | Some s \<Rightarrow> if s \<in> set cats then Some s else None)"

fun categorical :: "string list \<Rightarrow> column \<Rightarrow> column" where
  "categorical cats (Object xs) = Category (map (in_categories cats) xs)"
| "categorical cats (Category xs) = Category (map (in_categories cats) xs)"
| "categorical cats (Float64 xs) = Category (map (\<lambda>x. None) xs)"
| "categorical cats (Datetime xs) = Category (map (\<lambda>x. None) xs)"

text \<open>
  The "basic cleanups" at the top of the script, on the frame read from the CSV.
  \<^verbatim>\<open>pd.to_datetime(..., errors="coerce", utc=True)\<close> and \<^verbatim>\<open>.dt.year\<close> are library functions
  from column to column and are parameters here.
\<close>

definition cleanups :: "(column \<Rightarrow> column) \<Rightarrow> (column \<Rightarrow> column) \<Rightarrow> frame \<Rightarrow> py_error + frame" where
  "cleanups to_datetime dt_year df =
     bindE (getitem df ''time'') (\<lambda>t.
     let df = df(''time'' \<mapsto> to_datetime t) in
     bindE (getitem df ''time'') (\<lambda>t.
     let df = df(''year'' \<mapsto> dt_year t) in
     bindE (getitem df ''depth'') (\<lambda>d.
     bindE (clip 0 d) (\<lambda>c.
     let df = df(''depth_clean'' \<mapsto> c) in
     bindE (getitem df ''region'') (\<lambda>g.
     Inr (df(''region'' \<mapsto> categorical region_order g)))))))"

text \<open>
  Plot 6: \<^verbatim>\<open>px.scatter_geo(df.dropna(subset=["latitude","longitude","mag"]), ...,
  hover_data={...})\<close>. Of the figure, the columns shown on hover are kept.
\<close>

fun notna :: "column \<Rightarrow> bool list" where
  "notna (Float64 xs) = map (\<lambda>x. x \<noteq> NaN) xs"
| "notna (Object xs) = map (\<lambda>x. x \<noteq> None) xs"
| "notna (Datetime xs) = map (\<lambda>x. x \<noteq> None) xs"
| "notna (Category xs) = map (\<lambda>x. x \<noteq> None) xs"

definition pick :: "bool list \<Rightarrow> 'a list \<Rightarrow> 'a list" where
  "pick keep xs = map snd (filter fst (zip keep xs))"

fun select :: "bool list \<Rightarrow> column \<Rightarrow> column" where
  "select keep (Float64 xs) = Float64 (pick keep xs)"
| "select keep (Object xs) = Object (pick keep xs)"
| "select keep (Datetime xs) = Datetime (pick keep xs)"
| "select keep (Category xs) = Category (pick keep xs)"

definition complete_rows :: "frame \<Rightarrow> py_error + bool list" where
  "complete_rows df =
     bindE (getitem df ''latitude'') (\<lambda>la.
     bindE (getitem df ''longitude'') (\<lambda>lo.
     bindE (getitem df ''mag'') (\<lambda>m.
     Inr (map (\<lambda>(a, b, c). a \<and> b \<and> c) (zip (notna la) (zip (notna lo) (notna m)))))))"

definition dropna :: "frame \<Rightarrow> py_error + frame" where
  "dropna df = bindE (complete_rows df) (\<lambda>keep. Inr (\<lambda>name. map_option (select keep) (df name)))"

definition hover_data :: "(string \<times> bool) list" where
  "hover_data =
     [(''mag'', True), (''depth'', True), (''place'', True), (''time'', True), (''region'', True)]"

definition scatter_geo :: "frame \<Rightarrow> py_error + (string \<times> column) list" where
  "scatter_geo data_frame =
     mapE (\<lambda>(name, shown).
             case data_frame name of None \<Rightarrow> Inl ValueError | Some c \<Rightarrow> Inr (name, c))
          (filter snd hover_data)"

definition epicenter_map :: "frame \<Rightarrow> py_error + (string \<times> column) list" where
  "epicenter_map df = bindE (dropna df) scatter_geo"

section \<open>Sample inputs\<close>

definition sample_header :: string where
  "sample_header = ''time,latitude,longitude,depth,mag,place''"

definition kilauea_line :: string where
  "kilauea_line = ''2018-05-04T22:32:54.650Z,19.318,-154.9995,5.81,6.9,Leilani Estates''"

definition anchorage_line :: string where
  "anchorage_line = ''1964-03-28T03:36:16.000Z,60.908,-147.339,25,9.2,Prince William Sound''"

definition kilauea :: row where
  "kilauea = \<lparr>time = Str ''2018-05-04T22:32:54.650Z'', latitude = Num 19.318,
     longitude = Num (-154.9995), depth = Num 5.81, mag = Num 6.9,
     place = ''Leilani Estates'', other = []\<rparr>"

definition anchorage :: row where
  "anchorage = \<lparr>time = Str ''1964-03-28T03:36:16.000Z'', latitude = Num 60.908,
     longitude = Num (-147.339), depth = Num 25, mag = Num 9.2,
     place = ''Prince William Sound'', other = []\<rparr>"

definition sample_parser :: parser where
  "sample_parser header line =
     (if header = sample_header
      then map_of [(kilauea_line, kilauea), (anchorage_line, anchorage)] line
      else None)"

definition hawaii_text :: string where
  "hawaii_text = sample_header @ [nl] @ kilauea_line @ [nl] @ anchorage_line @ [nl]"

definition alaska_text :: string where
  "alaska_text = sample_header @ [nl] @ anchorage_line @ [nl]"

text \<open>A network on which one request succeeds, one times out and all others are refused.\<close>

definition sample_network :: network where
  "sample_network q =
     (if starttime q = ''1925-01-01'' \<and> minlatitude q = 18.5 then Response 200 hawaii_text
      else if minlatitude q = 17.5 then Raises ''timeout''
      else Response 503 [])"

text \<open>
  A response in which one time is written without the fraction of the second: an event at
  22:32:54.000, before the one at 22:32:54.650.
\<close>

definition foreshock_line :: string where
  "foreshock_line = ''2018-05-04T22:32:54Z,19.3,-155.0,5.0,5.4,Leilani Estates''"

definition foreshock :: row where
  "foreshock = \<lparr>time = Str ''2018-05-04T22:32:54Z'', latitude = Num 19.3,
     longitude = Num (-155.0), depth = Num 5.0, mag = Num 5.4,
     place = ''Leilani Estates'', other = []\<rparr>"

definition mixed_parser :: parser where
  "mixed_parser header line =
     (if header = sample_header
      then map_of [(kilauea_line, kilauea), (foreshock_line, foreshock)] line
      else None)"

definition mixed_text :: string where
  "mixed_text = sample_header @ [nl] @ foreshock_line @ [nl] @ kilauea_line @ [nl]"

definition mixed_network :: network where
  "mixed_network q =
     (if starttime q = ''2015-01-01'' \<and> minlatitude q = 18.5 then Response 200 mixed_text
      else Response 503 [])"

definition sample_frame :: frame where
  "sample_frame =
     [''time'' \<mapsto> Object [Some ''2018-05-04T22:32:54.650Z'', Some ''1964-03-28T03:36:16.000Z''],
      ''latitude'' \<mapsto> Float64 [Num 19.318, Num 60.908],
      ''longitude'' \<mapsto> Float64 [Num (-154.9995), Num (-147.339)],
      ''depth'' \<mapsto> Float64 [Num (-1.2), Num 25],
      ''mag'' \<mapsto> Float64 [Num 6.9, NaN],
      ''place'' \<mapsto> Object [Some ''Leilani Estates'', Some ''Prince William Sound''],
      ''region'' \<mapsto> Object [Some ''Hawaii'', Some ''Alaska'']]"

section \<open>Auxiliary facts\<close>

subsection \<open>Classification\<close>

lemmas box_defs = Conterminous_US_def Alaska_west_dateline_def Alaska_main_def
  Alaska_east_dateline_def Hawaii_def Puerto_Rico_def

lemma region_bounds_simps:
  "region_bounds ''Alaska_west_dateline'' = Inr Alaska_west_dateline"
  "region_bounds ''Alaska_main'' = Inr Alaska_main"
  "region_bounds ''Alaska_east_dateline'' = Inr Alaska_east_dateline"
  "region_bounds ''Hawaii'' = Inr Hawaii"
  "region_bounds ''Puerto_Rico'' = Inr Puerto_Rico"
  by (simp_all add: region_bounds_def REGIONS_def)

lemma in_region_in_box:
  assumes "region_bounds name = Inr b"
  shows "in_region name lat lon = Inr (in_box b lat lon)"
  using assms by (cases lat; cases lon) (simp_all add: in_region_def bindE_def in_box_def)

lemma classify_region_label: "classify_region r = Inr (region_label (latitude r) (longitude r))"
  by (simp add: classify_region_def region_label_def Let_def bindE_def
      in_region_in_box [OF region_bounds_simps(1)] in_region_in_box [OF region_bounds_simps(2)]
      in_region_in_box [OF region_bounds_simps(3)] in_region_in_box [OF region_bounds_simps(4)]
      in_region_in_box [OF region_bounds_simps(5)])

lemma mapE_total:
  assumes "\<And>x. f x = Inr (g x)"
  shows "mapE f xs = Inr (map g xs)"
  by (induction xs) (simp_all add: assms bindE_def)

lemma assign_region_label:
  "assign_region df = Inr (map (\<lambda>r. with_region r (region_label (latitude r) (longitude r))) df)"
  unfolding assign_region_def
  by (rule mapE_total) (simp add: classify_region_label bindE_def)

lemma region_with_region: "region (with_region r lab) = lab"
  by (simp add: with_region_def row.extend_def classified.fields_def)

lemma truncate_with_region: "row.truncate (with_region r lab) = r"
  by (simp add: with_region_def row.extend_def classified.fields_def row.truncate_def)

lemma time_with_region: "time (with_region r lab) = time r"
  by (simp add: with_region_def row.extend_def classified.fields_def)

lemma latlon_with_region:
  "latitude (with_region r lab) = latitude r" "longitude (with_region r lab) = longitude r"
  by (simp_all add: with_region_def row.extend_def classified.fields_def)

lemma region_label_in_order: "region_label lat lon \<in> set region_order"
  by (simp add: region_label_def region_order_def)

subsection \<open>Deduplication\<close>

lemma drop_seen_keys: "key ` set (drop_seen key seen rs) = key ` set rs - set seen"
  by (induction rs arbitrary: seen) auto

lemma drop_seen_distinct: "distinct (map key (drop_seen key seen rs))"
  by (induction rs arbitrary: seen) (auto simp: drop_seen_keys)

lemma drop_seen_fixed:
  "distinct (map key rs) \<Longrightarrow> key ` set rs \<inter> set seen = {} \<Longrightarrow> drop_seen key seen rs = rs"
  by (induction rs arbitrary: seen) auto

lemma distinct_key_once:
  "distinct (map key rs) \<Longrightarrow> k \<in> key ` set rs \<Longrightarrow> length (filter (\<lambda>r. key r = k) rs) = 1"
  by (induction rs) (auto simp: filter_empty_conv image_iff)

subsection \<open>Splitting and joining lines\<close>

lemma split_nl_not_Nil: "split_nl t \<noteq> []"
  by (induction t) (auto split: list.splits)

lemma split_nl_append_nl: "split_nl (a @ nl # b) = split_nl a @ split_nl b"
  by (induction a) (auto split: list.splits simp: split_nl_not_Nil)

lemma split_nl_no_nl: "nl \<notin> set t \<Longrightarrow> split_nl t = [t]"
  by (induction t) auto

lemma nl_notin_split_nl: "l \<in> set (split_nl t) \<Longrightarrow> nl \<notin> set l"
  by (induction t arbitrary: l) (auto split: if_splits list.splits)

lemma split_nl_join_nl:
  "ls \<noteq> [] \<Longrightarrow> list_all (\<lambda>l. nl \<notin> set l) ls \<Longrightarrow> split_nl (join_nl ls) = ls"
proof (induction ls rule: join_nl.induct)
  case 1
  then show ?case by simp
next
  case (2 l)
  then show ?case by (simp add: split_nl_no_nl)
next
  case (3 l v va)
  then show ?case by (simp add: split_nl_append_nl split_nl_no_nl)
qed

lemma split_nl_tl_clean: "list_all (\<lambda>l. nl \<notin> set l) (tl (split_nl t))"
  using nl_notin_split_nl [of _ t]
  by (auto simp: list_all_iff dest: list.set_sel(2) [OF split_nl_not_Nil])

subsection \<open>The combined text\<close>

lemma combine_loop_text:
  "combine_loop c bs =
     c @ concat (map (\<lambda>t. if length (split_nl t) > 1 then nl # join_nl (tl (split_nl t)) else []) bs)"
  by (induction bs arbitrary: c) (simp_all add: Let_def)

lemma split_nl_combine_loop:
  "split_nl (combine_loop c bs) = split_nl c @ concat (map (\<lambda>t. tl (split_nl t)) bs)"
proof (induction bs arbitrary: c)
  case Nil
  then show ?case by simp
next
  case (Cons b bs)
  show ?case
  proof (cases "length (split_nl b) > 1")
    case True
    then have "tl (split_nl b) \<noteq> []" by (cases "split_nl b") auto
    then have "split_nl (join_nl (tl (split_nl b))) = tl (split_nl b)"
      by (rule split_nl_join_nl) (rule split_nl_tl_clean)
    with True show ?thesis by (simp add: Cons.IH Let_def split_nl_append_nl)
  next
    case False
    then have "tl (split_nl b) = []" by (cases "split_nl b") auto
    with False show ?thesis by (simp add: Cons.IH Let_def)
  qed
qed

lemma csv_lines_header:
  assumes "\<not> blank (hd (split_nl t))"
  shows "csv_lines t = hd (split_nl t) # filter (\<lambda>l. \<not> blank l) (tl (split_nl t))"
  using assms split_nl_not_Nil [of t] by (cases "split_nl t") (simp_all add: csv_lines_def)

lemma csv_lines_combine_loop:
  "csv_lines (combine_loop c bs) =
     csv_lines c @ concat (map (\<lambda>t. filter (\<lambda>l. \<not> blank l) (tl (split_nl t))) bs)"
  by (simp add: csv_lines_def split_nl_combine_loop filter_concat o_def)

lemma data_rows_combine_loop:
  assumes "list_all (\<lambda>t. \<not> blank (hd (split_nl t))) (c # bs)"
  shows "tl (csv_lines (combine_loop c bs)) = concat (map (\<lambda>t. tl (csv_lines t)) (c # bs))"
proof -
  have later: "filter (\<lambda>l. \<not> blank l) (tl (split_nl t)) = tl (csv_lines t)" if "t \<in> set bs" for t
    using that assms by (simp add: list_all_iff csv_lines_header)
  have "concat (map (\<lambda>t. filter (\<lambda>l. \<not> blank l) (tl (split_nl t))) bs)
          = concat (map (\<lambda>t. tl (csv_lines t)) bs)"
    by (rule arg_cong [where f = concat], rule map_cong [OF refl]) (rule later)
  moreover have "csv_lines c \<noteq> []"
    using assms by (simp add: csv_lines_header)
  ultimately show ?thesis
    unfolding csv_lines_combine_loop by (cases "csv_lines c") simp_all
qed

lemma sum_list_pieces:
  "(\<Sum>t\<leftarrow>bs. int (length (split_nl t)) - 1) = int (length (concat (map (\<lambda>t. tl (split_nl t)) bs)))"
proof (induction bs)
  case Nil
  then show ?case by simp
next
  case (Cons b bs)
  have "int (length (tl (split_nl b))) = int (length (split_nl b)) - 1"
    using split_nl_not_Nil [of b] by (cases "split_nl b") simp_all
  with Cons show ?case by simp
qed

lemma catalog_text_lines:
  assumes "catalog_text t"
  shows "csv_lines t = butlast (split_nl t)"
    and "\<not> blank (hd (split_nl t))"
    and "line_count t = int (length (tl (csv_lines t)))"
proof -
  let ?ls = "split_nl t"
  from assms have last: "last ?ls = []" and ne: "butlast ?ls \<noteq> []"
    and nb: "list_all (\<lambda>l. \<not> blank l) (butlast ?ls)"
    by (simp_all add: catalog_text_def Let_def)
  have split: "?ls = butlast ?ls @ ['''']"
    using last split_nl_not_Nil [of t] by (metis append_butlast_last_id)
  have "filter (\<lambda>l. \<not> blank l) (butlast ?ls @ ['''']) = butlast ?ls"
    using nb by (simp add: blank_def list_all_iff)
  with split show lines: "csv_lines t = butlast ?ls"
    by (simp add: csv_lines_def)
  have "hd ?ls = hd (butlast ?ls)"
    using ne by (subst split) simp
  with ne nb show "\<not> blank (hd ?ls)"
    by (simp add: list_all_iff)
  have "length ?ls = Suc (length (butlast ?ls))"
    by (subst split) simp
  with ne show "line_count t = int (length (tl (csv_lines t)))"
    by (cases "butlast ?ls") (simp_all add: line_count_def lines)
qed

lemma int_sum_list: "int (sum_list (map f xs)) = (\<Sum>x\<leftarrow>xs. int (f x))"
  by (induction xs) simp_all

lemma nonempty_length: "xs \<noteq> [] \<Longrightarrow> 1 \<le> length xs"
  by (cases xs) simp_all

subsection \<open>Parsing and the script\<close>

lemma those_map_Some:
  "those (map f xs) = Some ys \<Longrightarrow> ys = map (\<lambda>x. the (f x)) xs"
  by (induction xs arbitrary: ys) (auto split: option.splits)

lemma read_csv_Inr:
  assumes "read_csv p text = Inr df"
  obtains header ls where "csv_lines text = header # ls" and "df = map (\<lambda>l. the (p header l)) ls"
  using assms by (auto simp: read_csv_def split: list.splits option.splits dest: those_map_Some)

lemma is_text_Str: "is_text c \<Longrightarrow> c = Str (text_of c)"
  by (cases c) simp_all

lemma is_number_Number: "is_number c \<Longrightarrow> c = Number (number_of c)"
  by (cases c) simp_all

lemma sort_values_time_set:
  assumes "sort_values_time df = Inr out"
  shows "set out = set df"
  using assms by (auto simp: sort_values_time_def Let_def split: if_splits)

lemma sorted_present_then_missing:
  fixes f :: "classified \<Rightarrow> 'k::linorder"
  assumes present: "\<And>x y. x \<in> set xs \<Longrightarrow> y \<in> set xs \<Longrightarrow> f x \<le> f y
                       \<Longrightarrow> time_le (time x) (time y)"
    and missing: "\<And>y. y \<in> set ys \<Longrightarrow> time y = Missing"
  shows "sorted_wrt (\<lambda>x y. time_le (time x) (time y)) (sort_key f xs @ ys)"
proof -
  have "sorted_wrt (\<lambda>x y. f x \<le> f y) (sort_key f xs)"
    using sorted_sort_key [of f xs] by (simp add: sorted_map)
  then have "sorted_wrt (\<lambda>x y. time_le (time x) (time y)) (sort_key f xs)"
    by (rule sorted_wrt_mono_rel [rotated]) (simp add: present)
  moreover have "sorted_wrt (\<lambda>x y. time_le (time x) (time y)) ys"
    by (rule sorted_wrt_mono_rel [of ys "\<lambda>x y. True"]) (simp_all add: missing)
  ultimately show ?thesis
    by (simp add: sorted_wrt_append missing)
qed

lemma sort_values_time_sorted:
  assumes "sort_values_time df = Inr out"
  shows "sorted_wrt (\<lambda>x y. time_le (time x) (time y)) out"
proof -
  let ?present = "filter (\<lambda>r. time r \<noteq> Missing) df"
  let ?missing = "filter (\<lambda>r. time r = Missing) df"
  show ?thesis
  proof (cases "list_all (\<lambda>r. is_text (time r)) ?present")
    case True
    then have out: "out = sort_key (\<lambda>r. text_of (time r)) ?present @ ?missing"
      using assms by (simp add: sort_values_time_def Let_def)
    have "time_le (time x) (time y)"
      if "x \<in> set ?present" "y \<in> set ?present" "text_of (time x) \<le> text_of (time y)" for x y
    proof -
      from True that(1,2) have "is_text (time x)" "is_text (time y)"
        by (simp_all add: list_all_iff)
      then have "time x = Str (text_of (time x))" "time y = Str (text_of (time y))"
        by (simp_all add: is_text_Str [symmetric])
      with that(3) show ?thesis
        by (metis time_le.simps(2))
    qed
    then show ?thesis
      unfolding out by (intro sorted_present_then_missing) simp_all
  next
    case False
    then have numbers: "list_all (\<lambda>r. is_number (time r)) ?present"
      and out: "out = sort_key (\<lambda>r. number_of (time r)) ?present @ ?missing"
      using assms by (simp_all add: sort_values_time_def Let_def split: if_splits)
    have "time_le (time x) (time y)"
      if "x \<in> set ?present" "y \<in> set ?present" "number_of (time x) \<le> number_of (time y)" for x y
    proof -
      from numbers that(1,2) have "is_number (time x)" "is_number (time y)"
        by (simp_all add: list_all_iff)
      then have "time x = Number (number_of (time x))" "time y = Number (number_of (time y))"
        by (simp_all add: is_number_Number [symmetric])
      with that(3) show ?thesis
        by (metis time_le.simps(3))
    qed
    then show ?thesis
      unfolding out by (intro sorted_present_then_missing) simp_all
  qed
qed

lemma process_Inr:
  assumes "process p text = Inr out"
  obtains df where "read_csv p text = Inr df"
    and "sort_values_time
           (map (\<lambda>r. with_region r (region_label (latitude r) (longitude r))) (drop_duplicates df))
         = Inr out"
  using assms by (auto simp: process_def bindE_def assign_region_label split: sum.splits)

lemma process_region:
  assumes "process p text = Inr df" and "c \<in> set df"
  shows "region c = region_label (latitude c) (longitude c)"
proof -
  from assms(1) obtain rows where
    "sort_values_time (map (\<lambda>r. with_region r (region_label (latitude r) (longitude r))) rows)
       = Inr df"
    by (auto elim: process_Inr)
  then have "set df = set (map (\<lambda>r. with_region r (region_label (latitude r) (longitude r))) rows)"
    by (rule sort_values_time_set)
  with assms(2) show ?thesis
    by (auto simp: region_with_region latlon_with_region)
qed

lemma process_sorted:
  assumes "process p text = Inr df"
  shows "sorted_wrt (\<lambda>x y. time_le (time x) (time y)) df"
  using assms by (auto elim!: process_Inr intro: sort_values_time_sorted)

lemma main_written:
  assumes "fetch_all net = first # rest" and "uncaught (main net p fs) = None"
  obtains df where "process p (combine_loop first rest) = Inr df"
    and "files (main net p fs) ''us_earthquakes_m4.5_complete.csv'' = Some (Table df)"
    and "files (main net p fs) ''temp_combined.csv'' = None"
  using assms by (auto simp: main_def Let_def split: sum.splits)

subsection \<open>Fetching\<close>

lemma regions_loop_all_failed:
  assumes "\<And>name b. (name, b) \<in> set rs \<Longrightarrow>
     download_earthquakes net s e name (lat_min b) (lat_max b) (lon_min b) (lon_max b) 4.5 = None"
  shows "regions_loop net s e rs acc = acc"
  using assms by (induction rs arbitrary: acc) (auto simp: Let_def)

lemma periods_loop_all_failed:
  assumes "\<And>s e name b. (s, e) \<in> set ws \<Longrightarrow> (name, b) \<in> set REGIONS \<Longrightarrow>
     download_earthquakes net s e name (lat_min b) (lat_max b) (lon_min b) (lon_max b) 4.5 = None"
  shows "periods_loop net ws acc = acc"
  using assms
proof (induction ws arbitrary: acc)
  case Nil
  then show ?case by simp
next
  case (Cons w ws)
  obtain s e where w: "w = (s, e)" by (cases w)
  have "regions_loop net s e REGIONS [] = []"
    by (rule regions_loop_all_failed, rule Cons.prems) (simp_all add: w)
  moreover have "periods_loop net ws acc = acc"
    by (rule Cons.IH, rule Cons.prems) simp_all
  ultimately show ?case
    unfolding w by simp
qed

lemma regions_loop_skip:
  assumes "download_earthquakes net s e name (lat_min b) (lat_max b) (lon_min b) (lon_max b) 4.5 = None"
  shows "regions_loop net s e rs acc = regions_loop net s e (remove1 (name, b) rs) acc"
proof (induction rs arbitrary: acc)
  case Nil
  then show ?case by simp
next
  case (Cons rb rs)
  obtain name' b' where rb: "rb = (name', b')" by (cases rb)
  show ?case
  proof (cases "rb = (name, b)")
    case True
    then show ?thesis using assms by (simp add: Let_def)
  next
    case False
    then show ?thesis
      unfolding rb by (auto simp: Let_def Cons.IH)
  qed
qed

subsection \<open>Order of catalog times\<close>

lemma digit_value_less: "digit c \<Longrightarrow> digit d \<Longrightarrow> c < d \<longleftrightarrow> digit_value c < digit_value d"
  by (auto simp: digit_def digit_value_def less_char_def less_eq_char_def)

lemma digit_value_eq: "digit c \<Longrightarrow> digit d \<Longrightarrow> c = d \<longleftrightarrow> digit_value c = digit_value d"
proof -
  assume "digit c" and "digit d"
  then have "48 \<le> (of_char c :: nat)" and "48 \<le> (of_char d :: nat)"
    by (simp_all add: digit_def less_eq_char_def)
  then have "digit_value c = digit_value d \<longleftrightarrow> (of_char c :: nat) = of_char d"
    unfolding digit_value_def by linarith
  then show ?thesis by simp
qed

lemma digit_value_le9: "digit c \<Longrightarrow> digit_value c \<le> 9"
  by (auto simp: digit_def digit_value_def less_eq_char_def)

lemma decimal_bound: "list_all digit cs \<Longrightarrow> decimal cs < 10 ^ length cs"
proof (induction cs)
  case Nil
  then show ?case by simp
next
  case (Cons c cs)
  then have "digit_value c \<le> 9" and "decimal cs < 10 ^ length cs"
    by (simp_all add: digit_value_le9)
  then have "digit_value c * 10 ^ length cs + decimal cs < 9 * 10 ^ length cs + 10 ^ length cs"
    by (meson add_le_less_mono mult_le_mono1)
  then show ?case by simp
qed

lemma place_value_le:
  fixes a b x y P :: nat
  assumes "x < P" and "y < P"
  shows "a * P + x \<le> b * P + y \<longleftrightarrow> a < b \<or> (a = b \<and> x \<le> y)"
proof (cases a b rule: linorder_cases)
  case less
  then have "(a + 1) * P \<le> b * P" by (intro mult_le_mono1) simp
  with assms less show ?thesis by (simp add: algebra_simps)
next
  case equal
  then show ?thesis by simp
next
  case greater
  then have "(b + 1) * P \<le> a * P" by (intro mult_le_mono1) simp
  with assms greater show ?thesis by (simp add: algebra_simps)
qed

lemma alike_filter_length:
  "list_all2 alike xs ys \<Longrightarrow> length (filter digit xs) = length (filter digit ys)"
  by (induction rule: list_all2_induct) (auto simp: alike_def)

lemma alike_order:
  "list_all2 alike xs ys \<Longrightarrow> xs \<le> ys \<longleftrightarrow> decimal (filter digit xs) \<le> decimal (filter digit ys)"
proof (induction rule: list_all2_induct)
  case Nil
  then show ?case by simp
next
  case (Cons c xs d ys)
  show ?case
  proof (cases "digit c \<and> digit d")
    case True
    have len: "length (filter digit xs) = length (filter digit ys)"
      using Cons.hyps(2) by (rule alike_filter_length)
    have bx: "decimal (filter digit xs) < 10 ^ length (filter digit ys)"
      using decimal_bound [of "filter digit xs"] by (simp add: list_all_iff len)
    have by': "decimal (filter digit ys) < 10 ^ length (filter digit ys)"
      using decimal_bound [of "filter digit ys"] by (simp add: list_all_iff)
    have "c # xs \<le> d # ys \<longleftrightarrow> c < d \<or> (c = d \<and> xs \<le> ys)"
      by auto
    also have "\<dots> \<longleftrightarrow> digit_value c < digit_value d
        \<or> (digit_value c = digit_value d \<and> decimal (filter digit xs) \<le> decimal (filter digit ys))"
      using True Cons.IH by (simp add: digit_value_less digit_value_eq)
    also have "\<dots> \<longleftrightarrow> decimal (filter digit (c # xs)) \<le> decimal (filter digit (d # ys))"
      using True place_value_le [OF bx by'] by (simp add: len)
    finally show ?thesis .
  next
    case False
    with Cons.hyps(1) have "c = d" "\<not> digit c" "\<not> digit d"
      by (auto simp: alike_def)
    with Cons.IH show ?thesis by simp
  qed
qed

lemma catalog_time_alike:
  assumes "catalog_time s" and "catalog_time t"
  shows "list_all2 alike s t"
proof -
  have "list_all2 (\<lambda>c d. \<exists>f. fits f c \<and> fits f d) s t"
    using assms unfolding catalog_time_def
    by (metis (mono_tags, lifting) list_all2_conv_all_nth)
  then show ?thesis
    by (rule list_all2_mono) (auto simp: alike_def fits_def split: if_splits)
qed

lemma catalog_time_order:
  "catalog_time s \<Longrightarrow> catalog_time t \<Longrightarrow> s \<le> t \<longleftrightarrow> instant s \<le> instant t"
  unfolding instant_def by (rule alike_order) (rule catalog_time_alike)

subsection \<open>The plotter\<close>

lemma clip_lower_max: "clip_lower 0 x = (case x of Num v \<Rightarrow> Num (max v 0) | NaN \<Rightarrow> NaN)"
  by (cases x) (simp_all add: max_def)

lemma scatter_geo_Inr:
  assumes "scatter_geo fr = Inr fig"
  shows "fig = map (\<lambda>name. (name, the (fr name))) [''mag'', ''depth'', ''place'', ''time'', ''region'']"
  using assms by (auto simp: scatter_geo_def hover_data_def bindE_def split: option.splits sum.splits)

subsection \<open>The sample inputs\<close>

lemma split_hawaii: "split_nl hawaii_text = [sample_header, kilauea_line, anchorage_line, []]"
  by (simp add: hawaii_text_def sample_header_def kilauea_line_def anchorage_line_def)

lemma split_alaska: "split_nl alaska_text = [sample_header, anchorage_line, []]"
  by (simp add: alaska_text_def sample_header_def anchorage_line_def)

lemma sample_not_blank:
  "\<not> blank sample_header" "\<not> blank kilauea_line" "\<not> blank anchorage_line" "blank []"
  by (simp_all add: blank_def sample_header_def kilauea_line_def anchorage_line_def)

lemma sample_parser_lines:
  "sample_parser sample_header kilauea_line = Some kilauea"
  "sample_parser sample_header anchorage_line = Some anchorage"
  by (simp_all add: sample_parser_def) (simp add: kilauea_line_def anchorage_line_def)

lemma fetch_all_sample: "fetch_all sample_network = [hawaii_text]"
  by (simp add: hawaii_text_def sample_header_def fetch_all_def date_ranges_def REGIONS_def
      download_earthquakes_def sample_network_def box_defs)

lemma regions_sample:
  "regions_loop sample_network ''1925-01-01'' ''1934-12-31'' REGIONS [] = [hawaii_text]"
  by (simp add: hawaii_text_def sample_header_def REGIONS_def
      download_earthquakes_def sample_network_def box_defs)

lemma read_csv_hawaii: "read_csv sample_parser hawaii_text = Inr [kilauea, anchorage]"
  by (simp add: read_csv_def csv_lines_def split_hawaii sample_not_blank sample_parser_lines)

lemma label_sample:
  "region_label (latitude kilauea) (longitude kilauea) = ''Hawaii''"
  "region_label (latitude anchorage) (longitude anchorage) = ''Alaska''"
  by (simp_all add: kilauea_def anchorage_def region_label_def in_box_def box_defs)

lemma key_sample: "subset_key kilauea \<noteq> subset_key anchorage"
  by (simp add: subset_key_def kilauea_def anchorage_def)

lemma process_hawaii:
  "process sample_parser hawaii_text
     = Inr [with_region anchorage ''Alaska'', with_region kilauea ''Hawaii'']"
proof -
  have "drop_duplicates [kilauea, anchorage] = [kilauea, anchorage]"
    using key_sample by (simp add: drop_duplicates_def)
  moreover have "time anchorage = Str ''1964-03-28T03:36:16.000Z''"
    "time kilauea = Str ''2018-05-04T22:32:54.650Z''"
    by (simp_all add: kilauea_def anchorage_def)
  ultimately show ?thesis
    by (simp add: process_def read_csv_hawaii bindE_def assign_region_label label_sample
        sort_values_time_def time_with_region)
qed

lemma main_sample:
  "main sample_network sample_parser Map.empty =
     \<lparr>files = [''us_earthquakes_m4.5_complete.csv'' \<mapsto>
                 Table [with_region anchorage ''Alaska'', with_region kilauea ''Hawaii'']],
      console = [''SUCCESS!'', ''Saved as: us_earthquakes_m4.5_complete.csv''],
      uncaught = None\<rparr>"
  by (simp add: main_def fetch_all_sample process_hawaii fun_upd_twist)

lemma sample_times:
  "time anchorage = Str ''1964-03-28T03:36:16.000Z''"
  "time kilauea = Str ''2018-05-04T22:32:54.650Z''"
  "time foreshock = Str ''2018-05-04T22:32:54Z''"
  by (simp_all add: anchorage_def kilauea_def foreshock_def)

lemma sample_shapes:
  "catalog_time ''1964-03-28T03:36:16.000Z''" "catalog_time ''2018-05-04T22:32:54.650Z''"
  "\<not> catalog_time ''2018-05-04T22:32:54Z''" "whole_second_time ''2018-05-04T22:32:54Z''"
  by (simp_all add: catalog_time_def whole_second_time_def time_shape_def second_shape_def
      fits_def digit_def less_eq_char_def)

lemma sample_instants:
  "instant ''1964-03-28T03:36:16.000Z'' = 19640328033616000"
  "instant ''2018-05-04T22:32:54.650Z'' = 20180504223254650"
  "instant ''2018-05-04T22:32:54Z'' = 20180504223254"
  by (simp_all add: instant_def digit_def less_eq_char_def digit_value_def)

lemma split_mixed: "split_nl mixed_text = [sample_header, foreshock_line, kilauea_line, []]"
  by (simp add: mixed_text_def sample_header_def kilauea_line_def foreshock_line_def)

lemma fetch_all_mixed: "fetch_all mixed_network = [mixed_text]"
  by (simp add: mixed_text_def sample_header_def fetch_all_def date_ranges_def REGIONS_def
      download_earthquakes_def mixed_network_def box_defs)

lemma read_csv_mixed: "read_csv mixed_parser mixed_text = Inr [foreshock, kilauea]"
proof -
  have "\<not> blank foreshock_line"
    by (simp add: blank_def foreshock_line_def)
  moreover have "mixed_parser sample_header foreshock_line = Some foreshock"
    "mixed_parser sample_header kilauea_line = Some kilauea"
    by (simp_all add: mixed_parser_def) (simp add: kilauea_line_def foreshock_line_def)
  ultimately show ?thesis
    by (simp add: read_csv_def csv_lines_def split_mixed sample_not_blank)
qed

lemma process_mixed:
  "process mixed_parser mixed_text
     = Inr [with_region kilauea ''Hawaii'', with_region foreshock ''Hawaii'']"
proof -
  have "subset_key foreshock \<noteq> subset_key kilauea"
    by (simp add: subset_key_def kilauea_def foreshock_def)
  then have "drop_duplicates [foreshock, kilauea] = [foreshock, kilauea]"
    by (simp add: drop_duplicates_def)
  moreover have "region_label (latitude foreshock) (longitude foreshock) = ''Hawaii''"
    by (simp add: foreshock_def region_label_def in_box_def box_defs)
  ultimately show ?thesis
    by (simp add: process_def read_csv_mixed bindE_def assign_region_label label_sample
        sort_values_time_def time_with_region sample_times)
qed

lemma main_mixed:
  "main mixed_network mixed_parser Map.empty =
     \<lparr>files = [''us_earthquakes_m4.5_complete.csv'' \<mapsto>
                 Table [with_region kilauea ''Hawaii'', with_region foreshock ''Hawaii'']],
      console = [''SUCCESS!'', ''Saved as: us_earthquakes_m4.5_complete.csv''],
      uncaught = None\<rparr>"
  by (simp add: main_def fetch_all_mixed process_mixed fun_upd_twist)

section \<open>The claims\<close>

text \<open>
  Claim C1. For every row of the deduplicated dataframe, the region label is computed from the
  row's latitude and longitude alone, by ordered precedence over membership in the closed boxes:
  ``Alaska'' if the coordinates lie in one of the three Alaska boxes, otherwise ``Hawaii'' if
  they lie in the Hawaii box, otherwise ``Puerto Rico'' if they lie in the Puerto Rico box,
  otherwise ``Conterminous US''. The assignment raises nothing, keeps every row as it is and
  gives row \<open>r\<close> the label \<open>region_label (latitude r) (longitude r)\<close>.
\<close>

theorem classify_by_ordered_precedence:
  "\<exists>out. assign_region (drop_duplicates df) = Inr out
     \<and> map row.truncate out = drop_duplicates df
     \<and> map region out = map (\<lambda>r. region_label (latitude r) (longitude r)) (drop_duplicates df)"
  by (simp add: assign_region_label o_def region_with_region truncate_with_region)

theorem classify_by_ordered_precedence_witness:
  "\<exists>out. assign_region (drop_duplicates [kilauea, anchorage, kilauea]) = Inr out
     \<and> map row.truncate out = [kilauea, anchorage]
     \<and> map region out = [''Hawaii'', ''Alaska'']"
  using classify_by_ordered_precedence [of "[kilauea, anchorage, kilauea]"] key_sample
  by (simp add: drop_duplicates_def label_sample)

text \<open>
  Claim C2. The combined text is the first response whole, followed, for each later response,
  by a newline and that response's lines after its first (header) line. So the lines of the
  combined text are the lines of the first response followed by the non-header lines of the
  others, and the number of lines after the header of the combined text is the sum, over the
  responses, of the number of lines less the header line. The same holds for the records
  \<^verbatim>\<open>read_csv\<close> sees (blank lines skipped) when every response starts with its header line, and
  for the script's own \<open>line_count\<close> of every response when the responses are catalog texts.
\<close>

theorem combined_text_keeps_first_and_data_lines:
  "combine_loop first rest =
     first @ concat (map (\<lambda>t. if length (split_nl t) > 1 then nl # join_nl (tl (split_nl t)) else [])
                      rest)
   \<and> split_nl (combine_loop first rest) = split_nl first @ concat (map (\<lambda>t. tl (split_nl t)) rest)
   \<and> int (length (split_nl (combine_loop first rest))) - 1
       = (\<Sum>t\<leftarrow>first # rest. int (length (split_nl t)) - 1)
   \<and> (list_all (\<lambda>t. \<not> blank (hd (split_nl t))) (first # rest) \<longrightarrow>
        length (tl (csv_lines (combine_loop first rest)))
          = (\<Sum>t\<leftarrow>first # rest. length (csv_lines t) - 1))
   \<and> (list_all catalog_text (first # rest) \<longrightarrow>
        int (length (tl (csv_lines (combine_loop first rest))))
          = (\<Sum>t\<leftarrow>first # rest. line_count t))"
proof (intro conjI impI)
  show "combine_loop first rest =
     first @ concat (map (\<lambda>t. if length (split_nl t) > 1 then nl # join_nl (tl (split_nl t)) else [])
                      rest)"
    by (rule combine_loop_text)
  show "split_nl (combine_loop first rest) = split_nl first @ concat (map (\<lambda>t. tl (split_nl t)) rest)"
    by (rule split_nl_combine_loop)
  show "int (length (split_nl (combine_loop first rest))) - 1
       = (\<Sum>t\<leftarrow>first # rest. int (length (split_nl t)) - 1)"
    by (simp add: split_nl_combine_loop sum_list_pieces del: length_concat)
next
  assume "list_all (\<lambda>t. \<not> blank (hd (split_nl t))) (first # rest)"
  then have "tl (csv_lines (combine_loop first rest))
      = concat (map (\<lambda>t. tl (csv_lines t)) (first # rest))"
    by (rule data_rows_combine_loop)
  then show "length (tl (csv_lines (combine_loop first rest)))
          = (\<Sum>t\<leftarrow>first # rest. length (csv_lines t) - 1)"
    by (simp add: length_concat o_def)
next
  assume ok: "list_all catalog_text (first # rest)"
  then have "list_all (\<lambda>t. \<not> blank (hd (split_nl t))) (first # rest)"
    unfolding list_all_iff using catalog_text_lines(2) by blast
  then have "tl (csv_lines (combine_loop first rest))
      = concat (map (\<lambda>t. tl (csv_lines t)) (first # rest))"
    by (rule data_rows_combine_loop)
  then have "int (length (tl (csv_lines (combine_loop first rest))))
      = (\<Sum>t\<leftarrow>first # rest. int (length (tl (csv_lines t))))"
    by (simp add: length_concat o_def int_sum_list del: list.map)
  also have "\<dots> = (\<Sum>t\<leftarrow>first # rest. line_count t)"
  proof (rule arg_cong [where f = sum_list], rule map_cong [OF refl])
    fix t assume "t \<in> set (first # rest)"
    with ok have "catalog_text t" by (auto simp: list_all_iff)
    then show "int (length (tl (csv_lines t))) = line_count t"
      by (rule catalog_text_lines(3) [symmetric])
  qed
  finally show "int (length (tl (csv_lines (combine_loop first rest))))
          = (\<Sum>t\<leftarrow>first # rest. line_count t)" .
qed

theorem combined_text_keeps_first_and_data_lines_witness:
  "combine_loop hawaii_text [alaska_text] = hawaii_text @ [nl] @ anchorage_line @ [nl]
   \<and> split_nl (combine_loop hawaii_text [alaska_text])
       = [sample_header, kilauea_line, anchorage_line, [], anchorage_line, []]
   \<and> list_all (\<lambda>t. \<not> blank (hd (split_nl t))) [hawaii_text, alaska_text]
   \<and> list_all catalog_text [hawaii_text, alaska_text]
   \<and> length (tl (csv_lines (combine_loop hawaii_text [alaska_text]))) = 3
   \<and> (\<Sum>t\<leftarrow>[hawaii_text, alaska_text]. length (csv_lines t) - 1) = 3
   \<and> (\<Sum>t\<leftarrow>[hawaii_text, alaska_text]. line_count t) = 3"
  using combined_text_keeps_first_and_data_lines [of hawaii_text "[alaska_text]"]
  by (simp add: split_hawaii split_alaska sample_not_blank csv_lines_def catalog_text_def
      line_count_def)

text \<open>
  Claim C3. Two fetched texts with the same header line share a data row: a line of each whose
  parsed rows agree exactly on time, latitude, longitude and mag. After merging the texts and
  parsing, that key occurs at least twice; after deduplication it occurs exactly once. No two
  rows of the deduplicated frame have the same key and no key of the merged frame is lost, so
  rows that differ in any of the four fields are never merged: of two rows differing in one of
  the fields both are kept, of two rows agreeing on all four only the first.
\<close>

theorem shared_row_kept_once:
  assumes "\<not> blank (hd (split_nl b1))" and "hd (split_nl b2) = hd (split_nl b1)"
    and "l1 \<in> set (tl (csv_lines b1))" and "l2 \<in> set (tl (csv_lines b2))"
    and "p (hd (split_nl b1)) l1 = Some r1" and "p (hd (split_nl b1)) l2 = Some r2"
    and "subset_key r1 = subset_key r2"
    and "read_csv p (combine_loop b1 [b2]) = Inr df"
  shows "length (filter (\<lambda>r. subset_key r = subset_key r1) df) \<ge> 2
    \<and> length (filter (\<lambda>r. subset_key r = subset_key r1) (drop_duplicates df)) = 1
    \<and> distinct (map subset_key (drop_duplicates df))
    \<and> subset_key ` set (drop_duplicates df) = subset_key ` set df
    \<and> (time x \<noteq> time y \<or> latitude x \<noteq> latitude y \<or> longitude x \<noteq> longitude y \<or> mag x \<noteq> mag y
          \<longrightarrow> drop_duplicates [x, y] = [x, y])
    \<and> (time x = time y \<and> latitude x = latitude y \<and> longitude x = longitude y \<and> mag x = mag y
          \<longrightarrow> drop_duplicates [x, y] = [x])"
proof -
  let ?h = "hd (split_nl b1)"
  let ?same = "\<lambda>r. subset_key r = subset_key r1"
  have "list_all (\<lambda>t. \<not> blank (hd (split_nl t))) [b1, b2]"
    using assms(1,2) by simp
  then have rows: "tl (csv_lines (combine_loop b1 [b2])) = tl (csv_lines b1) @ tl (csv_lines b2)"
    by (simp add: data_rows_combine_loop del: combine_loop.simps)
  have "hd (csv_lines (combine_loop b1 [b2])) = ?h"
    using assms(1) by (simp add: csv_lines_combine_loop csv_lines_header del: combine_loop.simps)
  with assms(8) rows have df: "df = map (\<lambda>l. the (p ?h l)) (tl (csv_lines b1) @ tl (csv_lines b2))"
    by (auto elim!: read_csv_Inr)
  have "r1 \<in> set (map (\<lambda>l. the (p ?h l)) (tl (csv_lines b1)))"
    using assms(3,5) by (force simp: image_iff)
  then have "filter ?same (map (\<lambda>l. the (p ?h l)) (tl (csv_lines b1))) \<noteq> []"
    by (auto simp: filter_empty_conv)
  then have n1: "length (filter ?same (map (\<lambda>l. the (p ?h l)) (tl (csv_lines b1)))) \<ge> 1"
    by (rule nonempty_length)
  have "r2 \<in> set (map (\<lambda>l. the (p ?h l)) (tl (csv_lines b2)))"
    using assms(4,6) by (force simp: image_iff)
  then have "filter ?same (map (\<lambda>l. the (p ?h l)) (tl (csv_lines b2))) \<noteq> []"
    using assms(7) by (auto simp: filter_empty_conv)
  then have n2: "length (filter ?same (map (\<lambda>l. the (p ?h l)) (tl (csv_lines b2)))) \<ge> 1"
    by (rule nonempty_length)
  from n1 n2 have twice: "length (filter ?same df) \<ge> 2"
    unfolding df map_append filter_append length_append by linarith
  then have "filter ?same df \<noteq> []"
    by auto
  then obtain r where "r \<in> set df" and "subset_key r = subset_key r1"
    by (auto simp: filter_empty_conv)
  then have "subset_key r1 \<in> subset_key ` set df"
    by (metis image_eqI)
  then have once: "length (filter ?same (drop_duplicates df)) = 1"
    unfolding drop_duplicates_def
    by (intro distinct_key_once) (simp_all add: drop_seen_distinct drop_seen_keys)
  have pair: "subset_key x = subset_key y
      \<longleftrightarrow> time x = time y \<and> latitude x = latitude y \<and> longitude x = longitude y \<and> mag x = mag y"
    by (simp add: subset_key_def)
  have "drop_duplicates [x, y] = (if subset_key x = subset_key y then [x] else [x, y])"
    by (auto simp: drop_duplicates_def)
  with pair have two: "(time x \<noteq> time y \<or> latitude x \<noteq> latitude y \<or> longitude x \<noteq> longitude y
        \<or> mag x \<noteq> mag y \<longrightarrow> drop_duplicates [x, y] = [x, y])
     \<and> (time x = time y \<and> latitude x = latitude y \<and> longitude x = longitude y \<and> mag x = mag y
          \<longrightarrow> drop_duplicates [x, y] = [x])"
    by presburger
  have "distinct (map subset_key (drop_duplicates df))"
    and "subset_key ` set (drop_duplicates df) = subset_key ` set df"
    by (simp_all add: drop_duplicates_def drop_seen_distinct drop_seen_keys)
  with twice once two show ?thesis
    by blast
qed

theorem shared_row_kept_once_witness:
  "\<not> blank (hd (split_nl hawaii_text)) \<and> hd (split_nl alaska_text) = hd (split_nl hawaii_text)
   \<and> anchorage_line \<in> set (tl (csv_lines hawaii_text))
   \<and> anchorage_line \<in> set (tl (csv_lines alaska_text))
   \<and> sample_parser (hd (split_nl hawaii_text)) anchorage_line = Some anchorage
   \<and> subset_key anchorage = subset_key anchorage
   \<and> read_csv sample_parser (combine_loop hawaii_text [alaska_text])
        = Inr [kilauea, anchorage, anchorage]
   \<and> length (filter (\<lambda>r. subset_key r = subset_key anchorage) [kilauea, anchorage, anchorage]) \<ge> 2
   \<and> length (filter (\<lambda>r. subset_key r = subset_key anchorage)
        (drop_duplicates [kilauea, anchorage, anchorage])) = 1
   \<and> time kilauea \<noteq> time anchorage
   \<and> drop_duplicates [kilauea, anchorage] = [kilauea, anchorage]
   \<and> drop_duplicates [anchorage, anchorage] = [anchorage]"
proof -
  have lines: "csv_lines hawaii_text = [sample_header, kilauea_line, anchorage_line]"
    "csv_lines alaska_text = [sample_header, anchorage_line]"
    by (simp_all add: csv_lines_def split_hawaii split_alaska sample_not_blank)
  have "csv_lines (combine_loop hawaii_text [alaska_text])
          = [sample_header, kilauea_line, anchorage_line, anchorage_line]"
    by (simp add: csv_lines_combine_loop lines split_alaska sample_not_blank del: combine_loop.simps)
  then have parsed: "read_csv sample_parser (combine_loop hawaii_text [alaska_text])
        = Inr [kilauea, anchorage, anchorage]"
    by (simp add: read_csv_def sample_parser_lines del: combine_loop.simps)
  have differ: "time kilauea \<noteq> time anchorage"
    by (simp add: kilauea_def anchorage_def)
  show ?thesis
    using shared_row_kept_once [of hawaii_text alaska_text anchorage_line anchorage_line
        sample_parser anchorage anchorage "[kilauea, anchorage, anchorage]" kilauea anchorage]
      shared_row_kept_once [of hawaii_text alaska_text anchorage_line anchorage_line
        sample_parser anchorage anchorage "[kilauea, anchorage, anchorage]" anchorage anchorage]
    by (simp add: parsed sample_parser_lines split_hawaii split_alaska sample_not_blank lines differ
        del: combine_loop.simps)
qed

text \<open>
  Claim C4. Deduplication on the key (time, latitude, longitude, mag) is idempotent: applied
  twice it yields the same rows, hence the same number of rows, as applied once.
\<close>

theorem drop_duplicates_idempotent:
  "drop_duplicates (drop_duplicates df) = drop_duplicates df
   \<and> length (drop_duplicates (drop_duplicates df)) = length (drop_duplicates df)"
proof -
  have "drop_seen subset_key [] (drop_seen subset_key [] df) = drop_seen subset_key [] df"
    by (rule drop_seen_fixed) (simp_all add: drop_seen_distinct)
  then show ?thesis by (simp add: drop_duplicates_def)
qed

theorem drop_duplicates_idempotent_witness:
  "drop_duplicates [kilauea, anchorage, kilauea] = [kilauea, anchorage]
   \<and> drop_duplicates (drop_duplicates [kilauea, anchorage, kilauea]) = [kilauea, anchorage]"
  using drop_duplicates_idempotent [of "[kilauea, anchorage, kilauea]"] key_sample
  by (simp add: drop_duplicates_def)

text \<open>
  Claim C5. When the request of a (time window, region box) pair gets a response whose status
  is not 200, or raises an exception, \<open>download_earthquakes\<close> returns \<open>None\<close> and no exception
  reaches the caller. The pair adds nothing to the accumulated data, and the loop goes on with
  the remaining boxes: the run over any list of boxes is the run over that list without the
  failed pair.
\<close>

theorem failed_request_contributes_nothing:
  assumes "(\<exists>msg. net q = Raises msg)
         \<or> (\<exists>status_code text. net q = Response status_code text \<and> status_code \<noteq> 200)"
    and "q = \<lparr>format = ''csv'', starttime = start_date, endtime = end_date, minmagnitude = 4.5,
              minlatitude = lat_min bounds, maxlatitude = lat_max bounds,
              minlongitude = lon_min bounds, maxlongitude = lon_max bounds, orderby = ''time''\<rparr>"
  shows "download_earthquakes net start_date end_date region_name
           (lat_min bounds) (lat_max bounds) (lon_min bounds) (lon_max bounds) 4.5 = None
    \<and> regions_loop net start_date end_date ((region_name, bounds) # rest) period_data
        = regions_loop net start_date end_date rest period_data
    \<and> regions_loop net start_date end_date regions period_data
        = regions_loop net start_date end_date (remove1 (region_name, bounds) regions) period_data"
proof -
  have none: "download_earthquakes net start_date end_date region_name
           (lat_min bounds) (lat_max bounds) (lon_min bounds) (lon_max bounds) 4.5 = None"
    using assms by (auto simp: download_earthquakes_def)
  then have "regions_loop net start_date end_date ((region_name, bounds) # rest) period_data
        = regions_loop net start_date end_date rest period_data"
    by (simp add: Let_def)
  with none show ?thesis
    using regions_loop_skip [OF none] by blast
qed

theorem failed_request_contributes_nothing_witness:
  "sample_network \<lparr>format = ''csv'', starttime = ''1925-01-01'', endtime = ''1934-12-31'',
       minmagnitude = 4.5, minlatitude = lat_min Puerto_Rico, maxlatitude = lat_max Puerto_Rico,
       minlongitude = lon_min Puerto_Rico, maxlongitude = lon_max Puerto_Rico, orderby = ''time''\<rparr>
     = Raises ''timeout''
   \<and> download_earthquakes sample_network ''1925-01-01'' ''1934-12-31'' ''Puerto_Rico''
       (lat_min Puerto_Rico) (lat_max Puerto_Rico) (lon_min Puerto_Rico) (lon_max Puerto_Rico) 4.5
     = None
   \<and> regions_loop sample_network ''1925-01-01'' ''1934-12-31'' REGIONS [] = [hawaii_text]
   \<and> regions_loop sample_network ''1925-01-01'' ''1934-12-31''
        (remove1 (''Puerto_Rico'', Puerto_Rico) REGIONS) [] = [hawaii_text]"
  using failed_request_contributes_nothing [of sample_network _ "''1925-01-01''" "''1934-12-31''"
      Puerto_Rico "''Puerto_Rico''" "[]" "[]" REGIONS]
  by (simp add: regions_sample) (simp add: sample_network_def box_defs)

text \<open>
  Claim C6. The labels classification produces are exactly the four of
  \<open>{''Alaska'', ''Conterminous US'', ''Hawaii'', ''Puerto Rico''}\<close>, the plotter's
  \<open>region_order\<close>: each of the four is the label of some row and no row gets another one. When
  the script fetched data and ended without an exception, it wrote the output file, and every
  row of that file carries one of the four labels.
\<close>

theorem region_labels_are_the_four:
  assumes "fetch_all net \<noteq> []" and "uncaught (main net p fs) = None"
  shows "range classify_region = Inr ` set region_order
    \<and> (\<exists>df. files (main net p fs) ''us_earthquakes_m4.5_complete.csv'' = Some (Table df)
          \<and> region ` set df \<subseteq> set region_order)"
proof
  have "Inr lab \<in> range classify_region" if "lab \<in> set region_order" for lab
  proof -
    let ?at = "\<lambda>la lo. \<lparr>time = Missing, latitude = Num la, longitude = Num lo, depth = NaN,
                        mag = NaN, place = [], other = []\<rparr>"
    have "classify_region (?at 60 (-150)) = Inr ''Alaska''"
      "classify_region (?at 40 (-100)) = Inr ''Conterminous US''"
      "classify_region (?at 20 (-157)) = Inr ''Hawaii''"
      "classify_region (?at 18 (-66)) = Inr ''Puerto Rico''"
      by (simp_all add: classify_region_label region_label_def in_box_def box_defs)
    with that show ?thesis
      unfolding region_order_def by (metis rangeI set_ConsD empty_iff empty_set)
  qed
  then show "range classify_region = Inr ` set region_order"
    by (auto simp: classify_region_label region_label_in_order)
next
  obtain first rest where "fetch_all net = first # rest"
    using assms(1) by (cases "fetch_all net") auto
  then obtain df where run: "process p (combine_loop first rest) = Inr df"
    and written: "files (main net p fs) ''us_earthquakes_m4.5_complete.csv'' = Some (Table df)"
    using assms(2) by (rule main_written)
  have "region c \<in> set region_order" if "c \<in> set df" for c
    using process_region [OF run that] by (simp add: region_label_in_order)
  then have "region ` set df \<subseteq> set region_order"
    by blast
  with written show "\<exists>df. files (main net p fs) ''us_earthquakes_m4.5_complete.csv'' = Some (Table df)
          \<and> region ` set df \<subseteq> set region_order"
    by blast
qed

theorem region_labels_are_the_four_witness:
  "fetch_all sample_network \<noteq> [] \<and> uncaught (main sample_network sample_parser Map.empty) = None
   \<and> files (main sample_network sample_parser Map.empty) ''us_earthquakes_m4.5_complete.csv''
       = Some (Table [with_region anchorage ''Alaska'', with_region kilauea ''Hawaii''])
   \<and> region ` set [with_region anchorage ''Alaska'', with_region kilauea ''Hawaii'']
       \<subseteq> set region_order"
  using region_labels_are_the_four [of sample_network sample_parser Map.empty]
  by (simp add: main_sample fetch_all_sample region_with_region region_order_def)

text \<open>
  Claim C7. A row whose latitude and longitude lie strictly inside the Hawaii box and outside
  the three Alaska boxes is labelled ``Hawaii''. The label depends on nothing else: it holds for
  every row with these coordinates, and for every such row of the frame the script produces
  from any combined text, whichever responses that text was combined from.
\<close>

theorem hawaii_interior_is_hawaii:
  assumes "lat_min Hawaii < lat" and "lat < lat_max Hawaii"
    and "lon_min Hawaii < lon" and "lon < lon_max Hawaii"
    and "\<not> in_box Alaska_west_dateline (Num lat) (Num lon)"
    and "\<not> in_box Alaska_main (Num lat) (Num lon)"
    and "\<not> in_box Alaska_east_dateline (Num lat) (Num lon)"
  shows "(latitude r = Num lat \<and> longitude r = Num lon \<longrightarrow> classify_region r = Inr ''Hawaii'')
    \<and> (process p text = Inr df \<and> c \<in> set df \<and> latitude c = Num lat \<and> longitude c = Num lon
          \<longrightarrow> region c = ''Hawaii'')"
proof -
  have "region_label (Num lat) (Num lon) = ''Hawaii''"
    using assms by (simp add: region_label_def in_box_def)
  then show ?thesis
    by (auto simp: classify_region_label dest: process_region)
qed

theorem hawaii_interior_is_hawaii_witness:
  "lat_min Hawaii < 19.318 \<and> 19.318 < lat_max Hawaii
   \<and> lon_min Hawaii < -154.9995 \<and> -154.9995 < lon_max Hawaii
   \<and> \<not> in_box Alaska_west_dateline (Num 19.318) (Num (-154.9995))
   \<and> \<not> in_box Alaska_main (Num 19.318) (Num (-154.9995))
   \<and> \<not> in_box Alaska_east_dateline (Num 19.318) (Num (-154.9995))
   \<and> latitude kilauea = Num 19.318 \<and> longitude kilauea = Num (-154.9995)
   \<and> classify_region kilauea = Inr ''Hawaii''
   \<and> process sample_parser hawaii_text
        = Inr [with_region anchorage ''Alaska'', with_region kilauea ''Hawaii'']
   \<and> region (with_region kilauea ''Hawaii'') = ''Hawaii''"
  using hawaii_interior_is_hawaii [of "19.318" "-154.9995" kilauea sample_parser hawaii_text
      "[with_region anchorage ''Alaska'', with_region kilauea ''Hawaii'']"
      "with_region kilauea ''Hawaii''"]
  by (simp add: process_hawaii region_with_region) (simp add: kilauea_def in_box_def box_defs)

text \<open>
  Claim C8, as the script has it. The script sorts the time column as \<^verbatim>\<open>read_csv\<close> typed
  it and never parses a time. When it fetched data and ended without an exception, the rows of
  the written file are in ascending order of the time column with missing values last: of
  two consecutive rows the first one's time is less than or equal to the second's as text
  (as numbers, in a numeric column), or the second's time is missing. For two consecutive
  rows whose times both have the catalog's shape \<^verbatim>\<open>YYYY-MM-DDTHH:MM:SS.sssZ\<close> this is the
  chronological order: the first row's instant is not later than the second's.
\<close>

theorem output_sorted_by_time_column:
  assumes "fetch_all net \<noteq> []" and "uncaught (main net p fs) = None"
  shows "\<exists>df. files (main net p fs) ''us_earthquakes_m4.5_complete.csv'' = Some (Table df)
     \<and> sorted_wrt (\<lambda>x y. time_le (time x) (time y)) df
     \<and> (\<forall>i. Suc i < length df \<longrightarrow> time_le (time (df ! i)) (time (df ! Suc i)))
     \<and> (\<forall>i s t. Suc i < length df \<and> time (df ! i) = Str s \<and> time (df ! Suc i) = Str t
                \<and> catalog_time s \<and> catalog_time t
            \<longrightarrow> instant_of s = Some (instant s) \<and> instant_of t = Some (instant t)
                \<and> instant s \<le> instant t)"
proof -
  obtain first rest where "fetch_all net = first # rest"
    using assms(1) by (cases "fetch_all net") auto
  then obtain df where "process p (combine_loop first rest) = Inr df"
    and written: "files (main net p fs) ''us_earthquakes_m4.5_complete.csv'' = Some (Table df)"
    using assms(2) by (rule main_written)
  then have s: "sorted_wrt (\<lambda>x y. time_le (time x) (time y)) df"
    by (simp add: process_sorted)
  have consecutive: "time_le (time (df ! i)) (time (df ! Suc i))" if "Suc i < length df" for i
    using that sorted_wrt_nth_less [OF s, of i "Suc i"] by simp
  have chrono: "instant_of s = Some (instant s) \<and> instant_of t = Some (instant t)
      \<and> instant s \<le> instant t"
    if "Suc i < length df" "time (df ! i) = Str s" "time (df ! Suc i) = Str t"
      "catalog_time s" "catalog_time t" for i s t
  proof -
    from consecutive [OF that(1)] that(2,3) have "s \<le> t" by simp
    with that(4,5) show ?thesis
      by (simp add: instant_of_def catalog_time_order)
  qed
  from written s consecutive chrono show ?thesis by blast
qed

theorem output_sorted_by_time_column_witness:
  "fetch_all sample_network \<noteq> [] \<and> uncaught (main sample_network sample_parser Map.empty) = None
   \<and> files (main sample_network sample_parser Map.empty) ''us_earthquakes_m4.5_complete.csv''
       = Some (Table [with_region anchorage ''Alaska'', with_region kilauea ''Hawaii''])
   \<and> time (with_region anchorage ''Alaska'') = Str ''1964-03-28T03:36:16.000Z''
   \<and> time (with_region kilauea ''Hawaii'') = Str ''2018-05-04T22:32:54.650Z''
   \<and> catalog_time ''1964-03-28T03:36:16.000Z'' \<and> catalog_time ''2018-05-04T22:32:54.650Z''
   \<and> time_le (time (with_region anchorage ''Alaska'')) (time (with_region kilauea ''Hawaii''))
   \<and> instant ''1964-03-28T03:36:16.000Z'' \<le> instant ''2018-05-04T22:32:54.650Z''"
proof -
  from output_sorted_by_time_column [of sample_network sample_parser Map.empty]
  obtain df where "files (main sample_network sample_parser Map.empty)
        ''us_earthquakes_m4.5_complete.csv'' = Some (Table df)"
    and consecutive: "\<forall>i. Suc i < length df \<longrightarrow> time_le (time (df ! i)) (time (df ! Suc i))"
    and chrono: "\<forall>i s t. Suc i < length df \<and> time (df ! i) = Str s \<and> time (df ! Suc i) = Str t
                \<and> catalog_time s \<and> catalog_time t
            \<longrightarrow> instant_of s = Some (instant s) \<and> instant_of t = Some (instant t)
                \<and> instant s \<le> instant t"
    by (auto simp: main_sample fetch_all_sample)
  then have df: "df = [with_region anchorage ''Alaska'', with_region kilauea ''Hawaii'']"
    by (simp add: main_sample)
  from consecutive [rule_format, of 0]
  have "time_le (time (with_region anchorage ''Alaska'')) (time (with_region kilauea ''Hawaii''))"
    by (simp add: df)
  moreover from chrono [rule_format, of 0 "''1964-03-28T03:36:16.000Z''"
      "''2018-05-04T22:32:54.650Z''"]
  have "instant ''1964-03-28T03:36:16.000Z'' \<le> instant ''2018-05-04T22:32:54.650Z''"
    by (simp add: df time_with_region sample_times sample_shapes)
  ultimately show ?thesis
    by (simp add: main_sample fetch_all_sample time_with_region sample_times sample_shapes)
qed

text \<open>
  Claim C8 as stated fails: the script can write two consecutive rows of which the first is
  chronologically later than the second. One response holds an event at 22:32:54.650 and an
  event whose time is written without the fraction, 22:32:54; as text the first sorts before
  the second, and the file is written in that order.
\<close>

theorem output_sorted_by_time_counterexample:
  "fetch_all mixed_network = [mixed_text]
   \<and> main mixed_network mixed_parser Map.empty =
       \<lparr>files = [''us_earthquakes_m4.5_complete.csv'' \<mapsto>
                   Table [with_region kilauea ''Hawaii'', with_region foreshock ''Hawaii'']],
        console = [''SUCCESS!'', ''Saved as: us_earthquakes_m4.5_complete.csv''],
        uncaught = None\<rparr>
   \<and> time (with_region kilauea ''Hawaii'') = Str ''2018-05-04T22:32:54.650Z''
   \<and> time (with_region foreshock ''Hawaii'') = Str ''2018-05-04T22:32:54Z''
   \<and> instant_of ''2018-05-04T22:32:54.650Z'' = Some 20180504223254650
   \<and> instant_of ''2018-05-04T22:32:54Z'' = Some 20180504223254000
   \<and> \<not> (20180504223254650 \<le> (20180504223254000 :: nat))"
  by (simp add: fetch_all_mixed main_mixed time_with_region sample_times instant_of_def
      sample_shapes sample_instants)

text \<open>
  Claim C9. The plotter's clipping of negative depths is for display only. On a frame with a
  numeric depth column the cleanups succeed and add a column \<open>depth_clean\<close> that holds
  \<open>max depth 0\<close> for every row, a missing depth staying missing, while the \<open>depth\<close> column is
  what it was. The interactive map shows on hover the \<open>depth\<close> column, not \<open>depth_clean\<close>: for
  the rows it plots, the original depths.
\<close>

theorem depth_clip_is_display_only:
  assumes "df0 ''time'' = Some t" and "df0 ''depth'' = Some (Float64 d)"
    and "df0 ''region'' = Some g"
  shows "\<exists>df. cleanups to_datetime dt_year df0 = Inr df
     \<and> df ''depth_clean''
         = Some (Float64 (map (\<lambda>x. case x of Num v \<Rightarrow> Num (max v 0) | NaN \<Rightarrow> NaN) d))
     \<and> df ''depth'' = Some (Float64 d)
     \<and> (\<forall>fig. epicenter_map df = Inr fig \<longrightarrow>
           ''depth_clean'' \<notin> fst ` set fig
           \<and> (\<exists>keep. complete_rows df = Inr keep
                 \<and> map_of fig ''depth'' = Some (Float64 (pick keep d))))"
proof -
  let ?df = "df0(''time'' \<mapsto> to_datetime t, ''year'' \<mapsto> dt_year (to_datetime t),
      ''depth_clean'' \<mapsto> Float64 (map (clip_lower 0) d),
      ''region'' \<mapsto> categorical region_order g)"
  have run: "cleanups to_datetime dt_year df0 = Inr ?df"
    using assms by (simp add: cleanups_def getitem_def bindE_def)
  have clean: "?df ''depth_clean''
      = Some (Float64 (map (\<lambda>x. case x of Num v \<Rightarrow> Num (max v 0) | NaN \<Rightarrow> NaN) d))"
    using clip_lower_max by (simp cong: map_cong)
  have same: "?df ''depth'' = Some (Float64 d)"
    using assms(2) by simp
  have hover: "''depth_clean'' \<notin> fst ` set fig
      \<and> (\<exists>keep. complete_rows ?df = Inr keep
            \<and> map_of fig ''depth'' = Some (Float64 (pick keep d)))"
    if "epicenter_map ?df = Inr fig" for fig
  proof -
    from that obtain keep where keep: "complete_rows ?df = Inr keep"
      and fig: "scatter_geo (\<lambda>name. map_option (select keep) (?df name)) = Inr fig"
      by (auto simp: epicenter_map_def dropna_def bindE_def split: sum.splits)
    from scatter_geo_Inr [OF fig] same keep show ?thesis
      by simp
  qed
  from run clean same hover show ?thesis by blast
qed

theorem depth_clip_is_display_only_witness:
  "sample_frame ''depth'' = Some (Float64 [Num (-1.2), Num 25])
   \<and> (\<exists>t. sample_frame ''time'' = Some t) \<and> (\<exists>g. sample_frame ''region'' = Some g)
   \<and> (\<exists>df fig. cleanups (\<lambda>c. Datetime [None, None]) (\<lambda>c. Float64 [NaN, NaN]) sample_frame = Inr df
        \<and> df ''depth_clean'' = Some (Float64 [Num 0, Num 25])
        \<and> df ''depth'' = Some (Float64 [Num (-1.2), Num 25])
        \<and> epicenter_map df = Inr fig
        \<and> complete_rows df = Inr [True, False]
        \<and> map_of fig ''depth'' = Some (Float64 [Num (-1.2)])
        \<and> ''depth_clean'' \<notin> fst ` set fig)"
proof -
  let ?f = "\<lambda>c::column. Datetime [None, None]" and ?g = "\<lambda>c::column. Float64 [NaN, NaN]"
  obtain df where run: "cleanups ?f ?g sample_frame = Inr df"
    and clean: "df ''depth_clean'' = Some (Float64 [Num 0, Num 25])"
    and same: "df ''depth'' = Some (Float64 [Num (-1.2), Num 25])"
    and hover: "\<And>fig. epicenter_map df = Inr fig \<Longrightarrow> ''depth_clean'' \<notin> fst ` set fig
          \<and> (\<exists>keep. complete_rows df = Inr keep
                \<and> map_of fig ''depth'' = Some (Float64 (pick keep [Num (-1.2), Num 25])))"
    using depth_clip_is_display_only [of sample_frame
        "Object [Some ''2018-05-04T22:32:54.650Z'', Some ''1964-03-28T03:36:16.000Z'']"
        "[Num (-1.2), Num 25]" "Object [Some ''Hawaii'', Some ''Alaska'']" ?f ?g]
    by (auto simp: sample_frame_def)
  have rows: "complete_rows df = Inr [True, False]"
    using run by (auto simp: cleanups_def complete_rows_def getitem_def bindE_def sample_frame_def)
  obtain fig where fig: "epicenter_map df = Inr fig"
    using run
    by (auto simp: cleanups_def epicenter_map_def dropna_def complete_rows_def getitem_def
        bindE_def sample_frame_def scatter_geo_def hover_data_def)
  from hover [OF fig] rows have "''depth_clean'' \<notin> fst ` set fig"
    and "map_of fig ''depth'' = Some (Float64 [Num (-1.2)])"
    by (auto simp: pick_def)
  with run clean same fig rows show ?thesis
    by (auto simp: sample_frame_def)
qed

text \<open>
  Claim C10. If every request of the 14 time windows and 6 region boxes fails, so that every
  call of \<open>download_earthquakes\<close> returns \<open>None\<close>, the script ends without an exception: it
  skips combining, parsing, deduplication and classification, prints that no data was
  downloaded, and leaves the file system as it found it, writing neither the temporary
  combined file nor the output CSV.
\<close>

theorem total_failure_writes_nothing:
  assumes "\<And>start_date end_date region_name bounds.
     (start_date, end_date) \<in> set date_ranges \<Longrightarrow> (region_name, bounds) \<in> set REGIONS \<Longrightarrow>
     download_earthquakes net start_date end_date region_name
       (lat_min bounds) (lat_max bounds) (lon_min bounds) (lon_max bounds) 4.5 = None"
  shows "length date_ranges = 14 \<and> length REGIONS = 6
    \<and> main net p fs =
        \<lparr>files = fs, console = [''No data downloaded successfully''], uncaught = None\<rparr>"
proof -
  have "fetch_all net = []"
    unfolding fetch_all_def by (rule periods_loop_all_failed) (rule assms)
  then show ?thesis by (simp add: main_def date_ranges_def REGIONS_def)
qed

theorem total_failure_writes_nothing_witness:
  "(\<forall>start_date end_date region_name bounds.
      download_earthquakes (\<lambda>q. Response 503 []) start_date end_date region_name
       (lat_min bounds) (lat_max bounds) (lon_min bounds) (lon_max bounds) 4.5 = None)
   \<and> main (\<lambda>q. Response 503 []) sample_parser [''notes.txt'' \<mapsto> Text ''kept'']
       = \<lparr>files = [''notes.txt'' \<mapsto> Text ''kept''],
          console = [''No data downloaded successfully''], uncaught = None\<rparr>"
  using total_failure_writes_nothing
    [of "\<lambda>q. Response 503 []" sample_parser "[''notes.txt'' \<mapsto> Text ''kept'']"]
  by (simp add: download_earthquakes_def)

end
